theory Spec2Isabelle
  imports Main "HOL-Library.Sublist"
begin

section \<open>The anomaly list component (AnomalyList.js, lines 13 to 138)\<close>

text \<open>
  The component is a React function component. Its state is the tuple of \<open>useState\<close>
  cells of lines 14 to 24, modelled as one record. Every handler is a function from the
  state (and from what the outside world answered) to the next state. \<open>new Date()\<close> is
  a time handed to the handler, and a promise that settles is the value it settles with.
\<close>

type_synonym time = nat

datatype tab = anomaly | unidentified

text \<open>An element of the array returned by \<open>fetchAnomalyParams\<close>.\<close>

record anomalyParam =
  item_id :: int
  timestamp :: time
  param_value :: string

text \<open>The object returned by \<open>getSlackStatus\<close>, with the fields the component reads.\<close>

record slackStatusInfo =
  task_running :: bool
  auto_send_enabled :: bool
  sent_records_count :: nat

record anomalyListState =
  anomalyParams :: "anomalyParam list"
  loading :: bool
  error :: "string option"
  activeTab :: tab
  retryCount :: nat
  lastSyncTime :: "time option"
  lastCheckTime :: "time option"
  lastDataUpdateTime :: "time option"
  seenRecordIds :: "int set"
  slackStatus :: "slackStatusInfo option"
  slackSending :: bool

text \<open>The initial values of the \<open>useState\<close> cells.\<close>

definition initialState :: anomalyListState where
  "initialState =
     \<lparr> anomalyParams = [], loading = True, error = None, activeTab = anomaly,
       retryCount = 0, lastSyncTime = None, lastCheckTime = None,
       lastDataUpdateTime = None, seenRecordIds = {}, slackStatus = None,
       slackSending = False \<rparr>"

text \<open>
  What an awaited call did: it threw (a rejected promise, or a \<open>TypeError\<close> on an answer of
  the wrong shape), or it returned a value.
\<close>

datatype thrown = Thrown

type_synonym 'a settled = "thrown + 'a"

subsection \<open>fetchData (lines 26 to 73)\<close>

text \<open>
  \<open>newRecords\<close> of line 44: the fetched items whose id the set \<open>seen\<close> does not hold.
\<close>

definition newRecords :: "int set \<Rightarrow> anomalyParam list \<Rightarrow> anomalyParam list" where
  "newRecords seen data = filter (\<lambda>item. item_id item \<notin> seen) data"

text \<open>\<open>currentRecordIds\<close> of line 43.\<close>

definition currentRecordIds :: "anomalyParam list \<Rightarrow> int set" where
  "currentRecordIds data = set (map item_id data)"

definition failureText :: string where
  "failureText = ''Failed to load parameters. Please try again.''"

text \<open>
  \<open>fetchData seen forceUpdate response now s\<close>. The function reads \<open>seenRecordIds\<close>
  from the closure of the render that created it (line 44): that value is the argument
  \<open>seen\<close>. The update of line 53 is a functional update and reads the cell itself, which is
  \<open>seenRecordIds s\<close>. \<open>response\<close> is what \<open>fetchAnomalyParams\<close> settled with in the
  \<open>try\<close> block; every throw of the block happens before its first setter.
\<close>

definition fetchData ::
  "int set \<Rightarrow> bool \<Rightarrow> anomalyParam list settled \<Rightarrow> time \<Rightarrow> anomalyListState \<Rightarrow> anomalyListState"
where
  "fetchData seen forceUpdate response now s =
     (let s1 = s\<lparr>loading := forceUpdate\<rparr>;
          s2 = (case response of
                  Inr data \<Rightarrow>
                    if length (newRecords seen data) > 0 \<or> forceUpdate
                    then s1\<lparr>anomalyParams := data,
                            error := None,
                            lastDataUpdateTime := Some now,
                            seenRecordIds := seenRecordIds s1 \<union> currentRecordIds data,
                            retryCount := 0\<rparr>
                    else s1
                | Inl err \<Rightarrow>
                    s1\<lparr>error := Some failureText,
                       retryCount := retryCount s1 + 1\<rparr>)
      in if forceUpdate then s2\<lparr>loading := False\<rparr> else s2)"

subsection \<open>The other handlers (lines 75 to 138)\<close>

text \<open>
  \<open>fetchSlackStatus\<close> (lines 91 to 98): the status is stored when \<open>getSlackStatus\<close>
  returns one; a throw is caught and logged.
\<close>

definition fetchSlackStatus :: "slackStatusInfo settled \<Rightarrow> anomalyListState \<Rightarrow> anomalyListState" where
  "fetchSlackStatus answer s =
     (case answer of Inr status \<Rightarrow> s\<lparr>slackStatus := Some status\<rparr> | Inl err \<Rightarrow> s)"

text \<open>
  \<open>toggleAutoSend\<close> (lines 100 to 108): the new flag goes to the server; the component
  only refreshes the status afterwards, and not at all when the toggle call throws.
\<close>

definition toggleRequest :: "anomalyListState \<Rightarrow> bool" where
  "toggleRequest s = (case slackStatus s of None \<Rightarrow> True | Some st \<Rightarrow> \<not> auto_send_enabled st)"

definition toggleAutoSend ::
  "unit settled \<Rightarrow> slackStatusInfo settled \<Rightarrow> anomalyListState \<Rightarrow> anomalyListState" where
  "toggleAutoSend toggled answer s =
     (case toggled of Inr u \<Rightarrow> fetchSlackStatus answer s | Inl err \<Rightarrow> s)"

text \<open>
  \<open>handleRefresh\<close> (lines 135 to 138) and the callback of the ten-second interval (lines
  120 to 123). Both call the \<open>fetchData\<close> of the current render, whose closure holds the
  current seen-id set: the interval is set up again whenever \<open>activeTab\<close> or
  \<open>seenRecordIds\<close> changes (line 126).
\<close>

definition handleRefresh ::
  "time \<Rightarrow> anomalyParam list settled \<Rightarrow> time \<Rightarrow> anomalyListState \<Rightarrow> anomalyListState" where
  "handleRefresh checkTime response now s =
     fetchData (seenRecordIds s) True response now (s\<lparr>lastCheckTime := Some checkTime\<rparr>)"

definition intervalTick ::
  "time \<Rightarrow> anomalyParam list settled \<Rightarrow> time \<Rightarrow> anomalyListState \<Rightarrow> anomalyListState" where
  "intervalTick checkTime response now s =
     fetchData (seenRecordIds s) False response now (s\<lparr>lastCheckTime := Some checkTime\<rparr>)"

text \<open>
  The effect of lines 111 to 116, which React runs after a render in which \<open>activeTab\<close>
  has changed. Its two synchronous setters come first (\<open>clearSeenOnTabChange\<close>); the
  forced \<open>fetchData\<close> it starts belongs to the render that ran the effect, so its closure
  still holds the set from before the clearing, while its functional update of line 53
  meets the cleared cell.
\<close>

definition clearSeenOnTabChange :: "time \<Rightarrow> anomalyListState \<Rightarrow> anomalyListState" where
  "clearSeenOnTabChange checkTime s = s\<lparr>lastCheckTime := Some checkTime, seenRecordIds := {}\<rparr>"

definition tabChangeEffect ::
  "time \<Rightarrow> anomalyParam list settled \<Rightarrow> time \<Rightarrow> slackStatusInfo settled \<Rightarrow>
   anomalyListState \<Rightarrow> anomalyListState" where
  "tabChangeEffect checkTime response now answer s =
     fetchSlackStatus answer
       (fetchData (seenRecordIds s) True response now (clearSeenOnTabChange checkTime s))"

text \<open>
  \<open>handleTabChange\<close> (lines 131 to 133). Setting the cell to the value it has causes no
  render and no effect.
\<close>

definition handleTabChange ::
  "tab \<Rightarrow> time \<Rightarrow> anomalyParam list settled \<Rightarrow> time \<Rightarrow> slackStatusInfo settled \<Rightarrow>
   anomalyListState \<Rightarrow> anomalyListState" where
  "handleTabChange newValue checkTime response now answer s =
     (if newValue = activeTab s then s
      else tabChangeEffect checkTime response now answer (s\<lparr>activeTab := newValue\<rparr>))"

subsection \<open>The handlers as actions\<close>

text \<open>
  One constructor for each way the state of the component changes, apart from
  \<open>syncToSlack\<close>, which is followed await by await further down. \<open>StaleFetch\<close> is a
  \<open>fetchData\<close> that finishes with the closure of an earlier render (a fetch that was
  still running when the state changed).
\<close>

datatype action =
    Refresh time "anomalyParam list settled" time
  | IntervalTick time "anomalyParam list settled" time
  | TabChange tab time "anomalyParam list settled" time "slackStatusInfo settled"
  | StaleFetch "int set" bool "anomalyParam list settled" time
  | ToggleAutoSend "unit settled" "slackStatusInfo settled"

fun perform :: "action \<Rightarrow> anomalyListState \<Rightarrow> anomalyListState" where
  "perform (Refresh checkTime response now) s = handleRefresh checkTime response now s"
| "perform (IntervalTick checkTime response now) s = intervalTick checkTime response now s"
| "perform (TabChange newValue checkTime response now answer) s =
     handleTabChange newValue checkTime response now answer s"
| "perform (StaleFetch seen forceUpdate response now) s = fetchData seen forceUpdate response now s"
| "perform (ToggleAutoSend toggled answer) s = toggleAutoSend toggled answer s"

fun performAll :: "action list \<Rightarrow> anomalyListState \<Rightarrow> anomalyListState" where
  "performAll [] s = s"
| "performAll (a # as) s = performAll as (perform a s)"

text \<open>
  The ids of the items that the filter of line 44 keeps when the action runs in state
  \<open>s\<close>: the ids the fetch counts as new (line 56 logs how many there are).
\<close>

definition newIds :: "int set \<Rightarrow> anomalyParam list settled \<Rightarrow> int set" where
  "newIds seen response =
     (case response of Inr data \<Rightarrow> set (map item_id (newRecords seen data)) | Inl err \<Rightarrow> {})"

fun countedNew :: "action \<Rightarrow> anomalyListState \<Rightarrow> int set" where
  "countedNew (Refresh checkTime response now) s = newIds (seenRecordIds s) response"
| "countedNew (IntervalTick checkTime response now) s = newIds (seenRecordIds s) response"
| "countedNew (TabChange newValue checkTime response now answer) s =
     (if newValue = activeTab s then {} else newIds (seenRecordIds s) response)"
| "countedNew (StaleFetch seen forceUpdate response now) s = newIds seen response"
| "countedNew (ToggleAutoSend toggled answer) s = {}"

text \<open>In how many actions of a run the id is counted as new.\<close>

fun timesNew :: "int \<Rightarrow> action list \<Rightarrow> anomalyListState \<Rightarrow> nat" where
  "timesNew i [] s = 0"
| "timesNew i (a # as) s =
     (if i \<in> countedNew a s then 1 else 0) + timesNew i as (perform a s)"

text \<open>
  A live session of one context: the manual refreshes, the interval polls and the
  auto-send toggles between two tab changes, each fetch finishing before the next action
  starts.
\<close>

fun inSession :: "action \<Rightarrow> bool" where
  "inSession (Refresh checkTime response now) = True"
| "inSession (IntervalTick checkTime response now) = True"
| "inSession (ToggleAutoSend toggled answer) = True"
| "inSession (TabChange newValue checkTime response now answer) = False"
| "inSession (StaleFetch seen forceUpdate response now) = False"

definition liveSession :: "action list \<Rightarrow> bool" where
  "liveSession as = list_all inSession as"

text \<open>The ids that the fetch of an action brought back.\<close>

fun fetchedIds :: "action \<Rightarrow> int set" where
  "fetchedIds (Refresh checkTime (Inr data) now) = currentRecordIds data"
| "fetchedIds (IntervalTick checkTime (Inr data) now) = currentRecordIds data"
| "fetchedIds (TabChange newValue checkTime (Inr data) now answer) = currentRecordIds data"
| "fetchedIds (StaleFetch seen forceUpdate (Inr data) now) = currentRecordIds data"
| "fetchedIds a = {}"

text \<open>A tab change to another tab restarts the context.\<close>

fun restarts :: "action \<Rightarrow> anomalyListState \<Rightarrow> bool" where
  "restarts (TabChange newValue checkTime response now answer) s = (newValue \<noteq> activeTab s)"
| "restarts a s = False"

subsection \<open>syncToSlack, await by await (lines 75 to 89, and the button of lines 197 to 205)\<close>

text \<open>
  An invocation of \<open>syncToSlack\<close> that has started and not returned is suspended at one
  of its two awaits: the send to the sink (line 78) or the status refresh (line 82).
\<close>

datatype syncPoint = AwaitSend | AwaitStatus

text \<open>
  The component (\<open>comp\<close>, the cells as the setters have left them), the state that the
  last render showed (\<open>rendered\<close>: the buttons on the page and their \<open>disabled\<close>
  attribute come from it), and the invocations of \<open>syncToSlack\<close> that are running.
\<close>

record panel =
  comp :: anomalyListState
  rendered :: anomalyListState
  running :: "syncPoint list"

definition initialPanel :: panel where
  "initialPanel = \<lparr> comp = initialState, rendered = initialState, running = [] \<rparr>"

text \<open>
  The send button exists only when a status is there (line 171) and fires its handler
  only when it is not disabled (line 200); both are read from the state of the render that
  put the button on the page.
\<close>

definition sendButtonEnabled :: "anomalyListState \<Rightarrow> bool" where
  "sendButtonEnabled s =
     (case slackStatus s of
        None \<Rightarrow> False
      | Some status \<Rightarrow> \<not> (slackSending s \<or> \<not> task_running status))"

definition removeAt :: "nat \<Rightarrow> 'a list \<Rightarrow> 'a list" where
  "removeAt i xs = take i xs @ drop (Suc i) xs"

datatype event =
    ClickSend
  | Render
  | SendSettled nat "unit settled"
  | StatusSettled nat "slackStatusInfo settled"
  | Handler action

text \<open>
  \<open>ClickSend\<close>: a click on the send button. A button that the last render left enabled
  runs \<open>syncToSlack\<close> up to its first await (the flag is set on line 77, the sink is
  called on line 78); \<open>syncToSlack\<close> itself does not read the flag.
  \<open>Render\<close>: React renders the component again, from the cells as they are.
  \<open>SendSettled i r\<close>: the sink call of invocation \<open>i\<close> settles; on a throw the \<open>catch\<close>
  and the \<open>finally\<close> run, otherwise the status refresh starts.
  \<open>StatusSettled i r\<close>: the status call of invocation \<open>i\<close> settles, then the \<open>finally\<close>
  block clears the flag (line 87).
\<close>

fun step :: "event \<Rightarrow> panel \<Rightarrow> panel" where
  "step ClickSend p =
     (if sendButtonEnabled (rendered p)
      then p\<lparr>comp := (comp p)\<lparr>slackSending := True\<rparr>, running := running p @ [AwaitSend]\<rparr>
      else p)"
| "step Render p = p\<lparr>rendered := comp p\<rparr>"
| "step (SendSettled i r) p =
     (if i < length (running p) \<and> running p ! i = AwaitSend
      then (case r of
              Inr u \<Rightarrow> p\<lparr>running := (running p)[i := AwaitStatus]\<rparr>
            | Inl err \<Rightarrow> p\<lparr>comp := (comp p)\<lparr>slackSending := False\<rparr>,
                           running := removeAt i (running p)\<rparr>)
      else p)"
| "step (StatusSettled i r) p =
     (if i < length (running p) \<and> running p ! i = AwaitStatus
      then p\<lparr>comp := (fetchSlackStatus r (comp p))\<lparr>slackSending := False\<rparr>,
              running := removeAt i (running p)\<rparr>
      else p)"
| "step (Handler a) p = p\<lparr>comp := perform a (comp p)\<rparr>"

fun steps :: "event list \<Rightarrow> panel \<Rightarrow> panel" where
  "steps [] p = p"
| "steps (e # es) p = steps es (step e p)"


text \<open>An event restarts the context when it is a tab change to another tab.\<close>

fun restartsContext :: "event \<Rightarrow> panel \<Rightarrow> bool" where
  "restartsContext (Handler a) p = restarts a (comp p)"
| "restartsContext e p = False"

text \<open>No event of the run restarts the context in the state it meets.\<close>

fun noRestart :: "event list \<Rightarrow> panel \<Rightarrow> bool" where
  "noRestart [] p = True"
| "noRestart (e # es) p = (\<not> restartsContext e p \<and> noRestart es (step e p))"


section \<open>The log viewer component (AnomalyList.js, lines 279 to 408)\<close>

text \<open>
  The records are whatever \<open>JSON.parse\<close> returns, a type \<open>'v\<close>. \<open>JSON.parse\<close>,
  \<open>JSON.stringify\<close> and \<open>toLowerCase\<close> are built into the platform: the handlers
  take them as the arguments \<open>parse\<close> (\<open>None\<close> when \<open>JSON.parse\<close> throws),
  \<open>stringify\<close> and \<open>lower\<close>.
\<close>

record 'v logViewerState =
  logs :: "'v list"
  filter_text :: string
  connectionError :: bool

definition initialLogViewer :: "'v logViewerState" where
  "initialLogViewer = \<lparr> logs = [], filter_text = [], connectionError = False \<rparr>"

text \<open>\<open>xs.slice(-k)\<close>: the last \<open>k\<close> elements, all of them when there are fewer.\<close>

definition slice_last :: "nat \<Rightarrow> 'a list \<Rightarrow> 'a list" where
  "slice_last k xs = drop (length xs - k) xs"

text \<open>
  The body of the \<open>try\<close> block of the log listener (lines 297 to 309): \<open>Inl\<close> when
  \<open>JSON.parse\<close> throws, \<open>Inr\<close> with the next state when the body returns, early or at
  its end.
\<close>

definition logListenerBody ::
  "(string \<Rightarrow> 'v option) \<Rightarrow> string \<Rightarrow> 'v logViewerState \<Rightarrow> thrown + 'v logViewerState" where
  "logListenerBody parse payload s =
     (if payload = [] then Inr s
      else case parse payload of
             None \<Rightarrow> Inl Thrown
           | Some logData \<Rightarrow> Inr (s\<lparr>logs := slice_last 100 (logs s @ [logData])\<rparr>))"

text \<open>The listener (lines 295 to 313): the \<open>catch\<close> block logs and returns.\<close>

definition logListener ::
  "(string \<Rightarrow> 'v option) \<Rightarrow> string \<Rightarrow> 'v logViewerState \<Rightarrow> thrown + 'v logViewerState" where
  "logListener parse payload s =
     (case logListenerBody parse payload s of Inl err \<Rightarrow> Inr s | Inr s' \<Rightarrow> Inr s')"

text \<open>The ping listener (lines 316 to 324).\<close>

definition pingListenerBody ::
  "(string \<Rightarrow> 'v option) \<Rightarrow> string \<Rightarrow> 'v logViewerState \<Rightarrow> thrown + 'v logViewerState" where
  "pingListenerBody parse payload s =
     (case parse payload of
        None \<Rightarrow> Inl Thrown
      | Some pingData \<Rightarrow> Inr (s\<lparr>connectionError := False\<rparr>))"

definition pingListener ::
  "(string \<Rightarrow> 'v option) \<Rightarrow> string \<Rightarrow> 'v logViewerState \<Rightarrow> thrown + 'v logViewerState" where
  "pingListener parse payload s =
     (case pingListenerBody parse payload s of Inl err \<Rightarrow> Inr s | Inr s' \<Rightarrow> Inr s')"

text \<open>\<open>handleError\<close> (lines 286 to 289) and \<open>handleFilterChange\<close> (lines 342 to 344).\<close>

definition handleError :: "'v logViewerState \<Rightarrow> 'v logViewerState" where
  "handleError s = s\<lparr>connectionError := True\<rparr>"

definition handleFilterChange :: "string \<Rightarrow> 'v logViewerState \<Rightarrow> 'v logViewerState" where
  "handleFilterChange v s = s\<lparr>filter_text := v\<rparr>"

text \<open>
  What the event source delivers, by event type, with the \<open>data\<close> of the event. An event
  of a type without listener changes nothing; a listener that threw would leave the state
  as it was before the event.
\<close>

datatype sseEvent =
    LogEvent string
  | PingEvent string
  | ErrorEvent
  | OtherEvent string string

fun deliver :: "(string \<Rightarrow> 'v option) \<Rightarrow> sseEvent \<Rightarrow> 'v logViewerState \<Rightarrow> 'v logViewerState" where
  "deliver parse (LogEvent payload) s =
     (case logListener parse payload s of Inl err \<Rightarrow> s | Inr s' \<Rightarrow> s')"
| "deliver parse (PingEvent payload) s =
     (case pingListener parse payload s of Inl err \<Rightarrow> s | Inr s' \<Rightarrow> s')"
| "deliver parse ErrorEvent s = handleError s"
| "deliver parse (OtherEvent name payload) s = s"

fun deliverAll :: "(string \<Rightarrow> 'v option) \<Rightarrow> sseEvent list \<Rightarrow> 'v logViewerState \<Rightarrow> 'v logViewerState" where
  "deliverAll parse [] s = s"
| "deliverAll parse (e # es) s = deliverAll parse es (deliver parse e s)"

text \<open>
  The records of a sequence of events, in delivery order: one for each log event whose
  payload is not empty and parses.
\<close>

fun deliveredRecords :: "(string \<Rightarrow> 'v option) \<Rightarrow> sseEvent list \<Rightarrow> 'v list" where
  "deliveredRecords parse [] = []"
| "deliveredRecords parse (LogEvent payload # es) =
     (if payload = [] then deliveredRecords parse es
      else case parse payload of
             None \<Rightarrow> deliveredRecords parse es
           | Some logData \<Rightarrow> logData # deliveredRecords parse es)"
| "deliveredRecords parse (e # es) = deliveredRecords parse es"

text \<open>
  The filter of lines 376 to 379. \<open>str_includes\<close> is \<open>String.prototype.includes\<close>: the
  argument occurs as a contiguous part of the string.
\<close>

definition str_includes :: "string \<Rightarrow> string \<Rightarrow> bool" where
  "str_includes str part = sublist part str"

definition matchesFilter ::
  "(string \<Rightarrow> string) \<Rightarrow> ('v \<Rightarrow> string) \<Rightarrow> string \<Rightarrow> 'v \<Rightarrow> bool" where
  "matchesFilter lower stringify flt log =
     (if flt = [] then True else str_includes (lower (stringify log)) (lower flt))"

definition visibleLogs ::
  "(string \<Rightarrow> string) \<Rightarrow> ('v \<Rightarrow> string) \<Rightarrow> 'v logViewerState \<Rightarrow> 'v list" where
  "visibleLogs lower stringify s =
     filter (matchesFilter lower stringify (filter_text s)) (logs s)"

text \<open>
  \<open>toLowerCase\<close> on ASCII text, for the examples: the letters \<open>A\<close> to \<open>Z\<close> go to
  \<open>a\<close> to \<open>z\<close>, every other character stays.
\<close>

definition lowerAscii :: "string \<Rightarrow> string" where
  "lowerAscii str =
     map (\<lambda>c. case map_of (zip ''ABCDEFGHIJKLMNOPQRSTUVWXYZ'' ''abcdefghijklmnopqrstuvwxyz'') c of
                Some d \<Rightarrow> d | None \<Rightarrow> c) str"


section \<open>Facts about fetchData and the handlers\<close>

lemma newRecords_empty_iff: "(newRecords seen data = []) = (currentRecordIds data \<subseteq> seen)"
  by (auto simp: newRecords_def currentRecordIds_def filter_empty_conv)

lemma newIds_Inr: "newIds seen (Inr data) = currentRecordIds data - seen"
  by (auto simp: newIds_def newRecords_def currentRecordIds_def)

lemma newIds_Inl: "newIds seen (Inl e) = {}"
  by (simp add: newIds_def)

lemma seenRecordIds_fetchData:
  "seenRecordIds (fetchData seen force response now s) =
     (case response of
        Inr data \<Rightarrow> if newRecords seen data \<noteq> [] \<or> force
                    then seenRecordIds s \<union> currentRecordIds data else seenRecordIds s
      | Inl err \<Rightarrow> seenRecordIds s)"
  by (simp add: fetchData_def Let_def split: sum.splits)

lemma seenRecordIds_fetchSlackStatus [simp]:
  "seenRecordIds (fetchSlackStatus answer s) = seenRecordIds s"
  by (simp add: fetchSlackStatus_def split: sum.splits)

lemma seenRecordIds_toggleAutoSend [simp]:
  "seenRecordIds (toggleAutoSend toggled answer s) = seenRecordIds s"
  by (simp add: toggleAutoSend_def split: sum.splits)

lemma slackSending_fetchData [simp]:
  "slackSending (fetchData seen force response now s) = slackSending s"
  by (simp add: fetchData_def Let_def split: sum.splits)

lemma slackSending_fetchSlackStatus [simp]:
  "slackSending (fetchSlackStatus answer s) = slackSending s"
  by (simp add: fetchSlackStatus_def split: sum.splits)

lemma slackStatus_fetchData [simp]:
  "slackStatus (fetchData seen force response now s) = slackStatus s"
  by (simp add: fetchData_def Let_def split: sum.splits)

lemma slackSending_perform [simp]: "slackSending (perform a s) = slackSending s"
  by (cases a)
     (simp_all add: handleRefresh_def intervalTick_def handleTabChange_def tabChangeEffect_def
                    clearSeenOnTabChange_def toggleAutoSend_def split: sum.splits)

lemma seen_grows_perform:
  "\<not> restarts a s \<Longrightarrow> seenRecordIds s \<subseteq> seenRecordIds (perform a s)"
  by (cases a)
     (auto simp: handleRefresh_def intervalTick_def handleTabChange_def
                 seenRecordIds_fetchData split: sum.splits if_splits)

lemma seen_grows_step:
  "\<not> restartsContext e p \<Longrightarrow> seenRecordIds (comp p) \<subseteq> seenRecordIds (comp (step e p))"
  by (cases e) (auto simp: seen_grows_perform split: sum.splits)

lemma seen_grows_steps:
  "noRestart es p \<Longrightarrow> seenRecordIds (comp p) \<subseteq> seenRecordIds (comp (steps es p))"
proof (induction es arbitrary: p)
  case Nil
  then show ?case by simp
next
  case (Cons e es)
  then have "seenRecordIds (comp p) \<subseteq> seenRecordIds (comp (step e p))"
    and "seenRecordIds (comp (step e p)) \<subseteq> seenRecordIds (comp (steps es (step e p)))"
    by (simp_all add: seen_grows_step)
  then show ?case by simp
qed

subsection \<open>One session of a context\<close>

lemma countedNew_inSession:
  "inSession a \<Longrightarrow> countedNew a s = fetchedIds a - seenRecordIds s"
proof (cases a)
  case (Refresh c response now)
  then show ?thesis by (cases response) (simp_all add: newIds_Inr newIds_Inl)
next
  case (IntervalTick c response now)
  then show ?thesis by (cases response) (simp_all add: newIds_Inr newIds_Inl)
qed simp_all

lemma seen_after_inSession:
  "inSession a \<Longrightarrow> seenRecordIds (perform a s) = seenRecordIds s \<union> fetchedIds a"
proof (cases a)
  case (Refresh c response now)
  then show ?thesis
    by (cases response) (simp_all add: handleRefresh_def seenRecordIds_fetchData)
next
  case (IntervalTick c response now)
  then show ?thesis
    by (cases response)
       (auto simp: intervalTick_def seenRecordIds_fetchData newRecords_empty_iff)
qed simp_all

lemma timesNew_seen:
  "liveSession as \<Longrightarrow> i \<in> seenRecordIds s \<Longrightarrow> timesNew i as s = 0"
proof (induction as arbitrary: s)
  case Nil
  then show ?case by simp
next
  case (Cons a as)
  from Cons.prems have a: "inSession a" and as: "liveSession as"
    by (simp_all add: liveSession_def)
  have "i \<notin> countedNew a s"
    using Cons.prems(2) by (simp add: countedNew_inSession [OF a])
  moreover have "i \<in> seenRecordIds (perform a s)"
    using Cons.prems(2) by (simp add: seen_after_inSession [OF a])
  ultimately show ?case
    using Cons.IH [OF as] by simp
qed

lemma timesNew_unseen:
  "liveSession as \<Longrightarrow> i \<notin> seenRecordIds s \<Longrightarrow>
   timesNew i as s = (if \<exists>a\<in>set as. i \<in> fetchedIds a then 1 else 0)"
proof (induction as arbitrary: s)
  case Nil
  then show ?case by simp
next
  case (Cons a as)
  from Cons.prems have a: "inSession a" and as: "liveSession as"
    by (simp_all add: liveSession_def)
  show ?case
  proof (cases "i \<in> fetchedIds a")
    case True
    then have "i \<in> countedNew a s" "i \<in> seenRecordIds (perform a s)"
      using Cons.prems(2)
      by (simp_all add: countedNew_inSession [OF a] seen_after_inSession [OF a])
    then show ?thesis
      using True timesNew_seen [OF as] by simp
  next
    case False
    then have "i \<notin> countedNew a s" "i \<notin> seenRecordIds (perform a s)"
      using Cons.prems(2)
      by (simp_all add: countedNew_inSession [OF a] seen_after_inSession [OF a])
    then show ?thesis
      using False Cons.IH [OF as] by simp
  qed
qed

lemma seen_after_session:
  "liveSession as \<Longrightarrow>
   seenRecordIds (performAll as s) = seenRecordIds s \<union> (\<Union>a\<in>set as. fetchedIds a)"
  by (induction as arbitrary: s) (auto simp: liveSession_def seen_after_inSession)

lemma seen_after_tabChange:
  "newValue \<noteq> activeTab s \<Longrightarrow>
   seenRecordIds (handleTabChange newValue c response now answer s) =
     fetchedIds (TabChange newValue c response now answer)"
  by (cases response)
     (simp_all add: handleTabChange_def tabChangeEffect_def clearSeenOnTabChange_def
                    seenRecordIds_fetchData)

lemma countedNew_tabChange:
  "newValue \<noteq> activeTab s \<Longrightarrow>
   countedNew (TabChange newValue c response now answer) s =
     fetchedIds (TabChange newValue c response now answer) - seenRecordIds s"
  by (cases response) (simp_all add: newIds_Inr newIds_Inl)

lemma timesNew_after_tabChange:
  assumes "liveSession as" and "newValue \<noteq> activeTab s" and "i \<notin> seenRecordIds s"
  shows "timesNew i (TabChange newValue c response now answer # as) s =
           (if i \<in> fetchedIds (TabChange newValue c response now answer) \<or>
               (\<exists>a\<in>set as. i \<in> fetchedIds a) then 1 else 0)"
proof (cases "i \<in> fetchedIds (TabChange newValue c response now answer)")
  case True
  then have "i \<in> countedNew (TabChange newValue c response now answer) s"
    and "i \<in> seenRecordIds (perform (TabChange newValue c response now answer) s)"
    using assms(2,3)
    by (simp_all add: countedNew_tabChange seen_after_tabChange
                 del: countedNew.simps fetchedIds.simps)
  then show ?thesis
    using True timesNew_seen [OF assms(1)] by simp
next
  case False
  then have "i \<notin> countedNew (TabChange newValue c response now answer) s"
    and "i \<notin> seenRecordIds (perform (TabChange newValue c response now answer) s)"
    using assms(2,3)
    by (simp_all add: countedNew_tabChange seen_after_tabChange
                 del: countedNew.simps fetchedIds.simps)
  then show ?thesis
    using False timesNew_unseen [OF assms(1)] by simp
qed

subsection \<open>The send panel\<close>










section \<open>Fetch failure\<close>

text \<open>
  Claim C9. When the record fetch rejects, the displayed record list and the seen-id set
  are unchanged, the error message is the fixed failure text and the retry count has
  grown by exactly one; the next update that succeeds (new records, or a forced fetch),
  from whatever state it starts, puts the retry count back to zero.
\<close>

theorem fetchData_failure_atomic:
  "anomalyParams (fetchData seen force (Inl e) now s) = anomalyParams s \<and>
   seenRecordIds (fetchData seen force (Inl e) now s) = seenRecordIds s \<and>
   error (fetchData seen force (Inl e) now s) = Some failureText \<and>
   retryCount (fetchData seen force (Inl e) now s) = retryCount s + 1 \<and>
   (newRecords seen' data \<noteq> [] \<or> force' \<longrightarrow>
      retryCount (fetchData seen' force' (Inr data) now' s') = 0)"
  by (simp add: fetchData_def Let_def)

theorem fetchData_failure_atomic_witness:
  "newRecords {} [\<lparr>item_id = 7, timestamp = 1, param_value = ''p''\<rparr>] \<noteq> [] \<and>
   retryCount (fetchData {} False (Inl Thrown) 3 initialState) = 1 \<and>
   anomalyParams (fetchData {} False (Inl Thrown) 3 initialState) = [] \<and>
   retryCount (fetchData {} False (Inr [\<lparr>item_id = 7, timestamp = 1, param_value = ''p''\<rparr>]) 4
                 (fetchData {} False (Inl Thrown) 3 initialState)) = 0"
  using fetchData_failure_atomic
    [of "{}" False Thrown 3 initialState "{}"
        "[\<lparr>item_id = 7, timestamp = 1, param_value = ''p''\<rparr>]" False 4
        "fetchData {} False (Inl Thrown) 3 initialState"]
  by (simp add: newRecords_def initialState_def)

section \<open>Deduplication within a session\<close>

text \<open>
  Claim C1 as stated fails. A fetch filters against the seen-id set that its closure
  captured, not against the cell. A poll that was started before an earlier poll settled
  still holds the empty set and counts id 7 as new a second time, with no tab change in
  between. In the other direction, after the mount has seen id 7 under the anomaly tab,
  the forced fetch of the switch to the unidentified tab holds the set of the tab left: it
  brings id 7 back into the cleared cell without counting it, and no later poll counts it
  either.
\<close>

theorem stale_closure_counts_id_twice_or_never:
  "timesNew 7
     [IntervalTick 1 (Inr [\<lparr>item_id = 7, timestamp = 1, param_value = ''p''\<rparr>]) 2,
      StaleFetch {} False (Inr [\<lparr>item_id = 7, timestamp = 1, param_value = ''p''\<rparr>]) 3]
     initialState = 2 \<and>
   seenRecordIds (tabChangeEffect 0 (Inr [\<lparr>item_id = 7, timestamp = 1, param_value = ''p''\<rparr>]) 1 (Inl Thrown) initialState) = {7} \<and>
   timesNew 7
     [TabChange unidentified 2 (Inr [\<lparr>item_id = 7, timestamp = 1, param_value = ''p''\<rparr>]) 3 (Inl Thrown),
      IntervalTick 4 (Inr [\<lparr>item_id = 7, timestamp = 1, param_value = ''p''\<rparr>]) 5]
     (tabChangeEffect 0 (Inr [\<lparr>item_id = 7, timestamp = 1, param_value = ''p''\<rparr>]) 1 (Inl Thrown) initialState) = 0"
  by (simp add: initialState_def currentRecordIds_def intervalTick_def fetchData_def Let_def
                newIds_def newRecords_def handleTabChange_def tabChangeEffect_def
                clearSeenOnTabChange_def fetchSlackStatus_def)

text \<open>
  Claim C1, amended. In a live session of a context whose fetches run one after the other
  (refreshes and interval polls, each filtering against the seen-id set of the current
  render, with no tab change in between), an id is counted as new by at most one fetch.
  An id that the seen-id set already holds is never counted as new. An id that the set
  does not hold is counted as new exactly once when some fetch of the session brings it
  back, namely by the first such fetch, and never otherwise; once fetched it is in the
  seen-id set at the end of the session. The same count holds when the session is taken
  from the tab change that opens it, forced fetch included, for an id that was not seen
  under the tab that is left. In general, a fetch counts as new exactly the fetched ids
  that the set captured by its closure does not hold.
\<close>

theorem dedup_new_exactly_once:
  assumes "liveSession as"
  shows "timesNew i as s \<le> 1 \<and>
         (i \<in> seenRecordIds s \<longrightarrow> timesNew i as s = 0) \<and>
         (i \<notin> seenRecordIds s \<longrightarrow>
            (timesNew i as s = 1) = (\<exists>a\<in>set as. i \<in> fetchedIds a)) \<and>
         (i \<notin> seenRecordIds s \<and> i \<in> fetchedIds a \<and> inSession a \<longrightarrow>
            i \<in> countedNew a s \<and> i \<in> seenRecordIds (perform a s) \<and>
            timesNew i as (perform a s) = 0) \<and>
         ((\<exists>a\<in>set as. i \<in> fetchedIds a) \<longrightarrow> i \<in> seenRecordIds (performAll as s)) \<and>
         (newValue \<noteq> activeTab s \<and> i \<notin> seenRecordIds s \<longrightarrow>
            timesNew i (TabChange newValue c response now answer # as) s =
              (if i \<in> fetchedIds (TabChange newValue c response now answer) \<or>
                  (\<exists>a\<in>set as. i \<in> fetchedIds a) then 1 else 0)) \<and>
         countedNew (StaleFetch closure force (Inr data) t) s' = item_id ` set data - closure"
proof -
  have general: "countedNew (StaleFetch closure force (Inr data) t) s' =
      item_id ` set data - closure"
    by (auto simp: newIds_def newRecords_def)
  have first: "i \<notin> seenRecordIds s \<and> i \<in> fetchedIds a \<and> inSession a \<longrightarrow>
      i \<in> countedNew a s \<and> i \<in> seenRecordIds (perform a s) \<and>
      timesNew i as (perform a s) = 0"
    using timesNew_seen [OF assms, of i "perform a s"]
    by (auto simp: countedNew_inSession seen_after_inSession)
  have start: "newValue \<noteq> activeTab s \<and> i \<notin> seenRecordIds s \<longrightarrow>
      timesNew i (TabChange newValue c response now answer # as) s =
        (if i \<in> fetchedIds (TabChange newValue c response now answer) \<or>
            (\<exists>a\<in>set as. i \<in> fetchedIds a) then 1 else 0)"
    using timesNew_after_tabChange [OF assms] by blast
  have rest: "timesNew i as s \<le> 1 \<and>
         (i \<in> seenRecordIds s \<longrightarrow> timesNew i as s = 0) \<and>
         (i \<notin> seenRecordIds s \<longrightarrow>
            (timesNew i as s = 1) = (\<exists>a\<in>set as. i \<in> fetchedIds a)) \<and>
         ((\<exists>a\<in>set as. i \<in> fetchedIds a) \<longrightarrow> i \<in> seenRecordIds (performAll as s))"
  proof (cases "i \<in> seenRecordIds s")
    case True
    then show ?thesis
      using timesNew_seen [OF assms, of i s] seen_after_session [OF assms, of s] by auto
  next
    case False
    then show ?thesis
      using timesNew_unseen [OF assms, of i s] seen_after_session [OF assms, of s] by auto
  qed
  from first start rest general show ?thesis by blast
qed

theorem dedup_new_exactly_once_witness:
  "liveSession
     [IntervalTick 1 (Inr [\<lparr>item_id = 7, timestamp = 1, param_value = ''p''\<rparr>]) 2,
      IntervalTick 3 (Inr [\<lparr>item_id = 7, timestamp = 1, param_value = ''p''\<rparr>]) 4,
      Refresh 5 (Inr [\<lparr>item_id = 7, timestamp = 1, param_value = ''p''\<rparr>]) 6] \<and>
   7 \<notin> seenRecordIds initialState \<and>
   7 \<in> fetchedIds (IntervalTick 1 (Inr [\<lparr>item_id = 7, timestamp = 1, param_value = ''p''\<rparr>]) 2) \<and>
   inSession (IntervalTick 1 (Inr [\<lparr>item_id = 7, timestamp = 1, param_value = ''p''\<rparr>]) 2) \<and>
   unidentified \<noteq> activeTab initialState \<and>
   timesNew 7
     [IntervalTick 1 (Inr [\<lparr>item_id = 7, timestamp = 1, param_value = ''p''\<rparr>]) 2,
      IntervalTick 3 (Inr [\<lparr>item_id = 7, timestamp = 1, param_value = ''p''\<rparr>]) 4,
      Refresh 5 (Inr [\<lparr>item_id = 7, timestamp = 1, param_value = ''p''\<rparr>]) 6]
     initialState = 1 \<and>
   7 \<in> seenRecordIds (performAll
     [IntervalTick 1 (Inr [\<lparr>item_id = 7, timestamp = 1, param_value = ''p''\<rparr>]) 2,
      IntervalTick 3 (Inr [\<lparr>item_id = 7, timestamp = 1, param_value = ''p''\<rparr>]) 4,
      Refresh 5 (Inr [\<lparr>item_id = 7, timestamp = 1, param_value = ''p''\<rparr>]) 6]
     initialState) \<and>
   timesNew 7
     [TabChange unidentified 0 (Inr [\<lparr>item_id = 7, timestamp = 1, param_value = ''p''\<rparr>]) 1
        (Inl Thrown),
      IntervalTick 1 (Inr [\<lparr>item_id = 7, timestamp = 1, param_value = ''p''\<rparr>]) 2,
      IntervalTick 3 (Inr [\<lparr>item_id = 7, timestamp = 1, param_value = ''p''\<rparr>]) 4,
      Refresh 5 (Inr [\<lparr>item_id = 7, timestamp = 1, param_value = ''p''\<rparr>]) 6]
     initialState = 1"
  using dedup_new_exactly_once
    [of "[IntervalTick 1 (Inr [\<lparr>item_id = 7, timestamp = 1, param_value = ''p''\<rparr>]) 2,
          IntervalTick 3 (Inr [\<lparr>item_id = 7, timestamp = 1, param_value = ''p''\<rparr>]) 4,
          Refresh 5 (Inr [\<lparr>item_id = 7, timestamp = 1, param_value = ''p''\<rparr>]) 6]"
        7 initialState
        "IntervalTick 1 (Inr [\<lparr>item_id = 7, timestamp = 1, param_value = ''p''\<rparr>]) 2"
        unidentified 0 "Inr [\<lparr>item_id = 7, timestamp = 1, param_value = ''p''\<rparr>]" 1
        "Inl Thrown"]
  by (simp add: liveSession_def initialState_def currentRecordIds_def intervalTick_def
                handleRefresh_def fetchData_def Let_def newIds_def newRecords_def
                handleTabChange_def tabChangeEffect_def clearSeenOnTabChange_def
                fetchSlackStatus_def)

section \<open>Growth of the seen-id set\<close>

text \<open>
  Claim C4. Between two context restarts the seen-id set only grows. Every event of the
  component other than a tab change to another tab (a refresh, an interval poll, a fetch
  finishing with the closure of an earlier render, an auto-send toggle, a render, a click
  on the send button, a settling send or status call) leaves a superset of the set it
  met, and so does every run of such events. A \<open>fetchData\<close> that updates (an item with an
  id outside the set of its closure, or a forced fetch) replaces the set by the union of
  the set and the ids of the fetched items; one that does not update, or fails, leaves
  the set as it is. After a refresh or an interval poll that returned, the set is the
  previous set together with the ids of all the items fetched.
\<close>

theorem seen_ids_grow_monotonically:
  "(\<not> restartsContext e p \<longrightarrow>
      seenRecordIds (comp p) \<subseteq> seenRecordIds (comp (step e p))) \<and>
   (noRestart es p \<longrightarrow>
      seenRecordIds (comp p) \<subseteq> seenRecordIds (comp (steps es p))) \<and>
   seenRecordIds (fetchData seen force (Inr data) now s) =
     (if (\<exists>item\<in>set data. item_id item \<notin> seen) \<or> force
      then seenRecordIds s \<union> item_id ` set data else seenRecordIds s) \<and>
   seenRecordIds (fetchData seen force (Inl err) now s) = seenRecordIds s \<and>
   seenRecordIds (handleRefresh c (Inr data) now s) = seenRecordIds s \<union> item_id ` set data \<and>
   seenRecordIds (intervalTick c (Inr data) now s) = seenRecordIds s \<union> item_id ` set data"
proof -
  have upd: "seenRecordIds (fetchData seen force (Inr data) now s) =
     (if (\<exists>item\<in>set data. item_id item \<notin> seen) \<or> force
      then seenRecordIds s \<union> item_id ` set data else seenRecordIds s)"
    for seen force s
    by (auto simp: fetchData_def Let_def newRecords_def currentRecordIds_def filter_empty_conv)
  have "seenRecordIds (handleRefresh c (Inr data) now s) = seenRecordIds s \<union> item_id ` set data"
    by (simp add: handleRefresh_def upd)
  moreover have "seenRecordIds (intervalTick c (Inr data) now s) =
      seenRecordIds s \<union> item_id ` set data"
    by (auto simp: intervalTick_def upd)
  moreover have "seenRecordIds (fetchData seen force (Inl err) now s) = seenRecordIds s"
    by (simp add: fetchData_def Let_def)
  ultimately show ?thesis
    using seen_grows_step [of e p] seen_grows_steps [of es p] upd [of seen force s] by blast
qed

theorem seen_ids_grow_monotonically_witness:
  "seenRecordIds (comp (step (Handler (Refresh 0 (Inr [\<lparr>item_id = 3, timestamp = 0, param_value = ''q''\<rparr>]) 1)) initialPanel)) = {3} \<and>
   \<not> restartsContext (Handler (IntervalTick 1 (Inr [\<lparr>item_id = 7, timestamp = 1, param_value = ''p''\<rparr>]) 2))
       (step (Handler (Refresh 0 (Inr [\<lparr>item_id = 3, timestamp = 0, param_value = ''q''\<rparr>]) 1)) initialPanel) \<and>
   noRestart
     [Handler (IntervalTick 1 (Inr [\<lparr>item_id = 7, timestamp = 1, param_value = ''p''\<rparr>]) 2),
      Handler (StaleFetch {} False (Inr [\<lparr>item_id = 9, timestamp = 2, param_value = ''r''\<rparr>]) 3),
      Handler (TabChange anomaly 4 (Inr []) 5 (Inl Thrown)),
      Render, ClickSend,
      Handler (Refresh 6 (Inl Thrown) 7)]
     (step (Handler (Refresh 0 (Inr [\<lparr>item_id = 3, timestamp = 0, param_value = ''q''\<rparr>]) 1)) initialPanel) \<and>
   seenRecordIds (comp (step (Handler (IntervalTick 1 (Inr [\<lparr>item_id = 7, timestamp = 1, param_value = ''p''\<rparr>]) 2))
     (step (Handler (Refresh 0 (Inr [\<lparr>item_id = 3, timestamp = 0, param_value = ''q''\<rparr>]) 1)) initialPanel))) = {3, 7} \<and>
   seenRecordIds (comp (steps
     [Handler (IntervalTick 1 (Inr [\<lparr>item_id = 7, timestamp = 1, param_value = ''p''\<rparr>]) 2),
      Handler (StaleFetch {} False (Inr [\<lparr>item_id = 9, timestamp = 2, param_value = ''r''\<rparr>]) 3),
      Handler (TabChange anomaly 4 (Inr []) 5 (Inl Thrown)),
      Render, ClickSend,
      Handler (Refresh 6 (Inl Thrown) 7)]
     (step (Handler (Refresh 0 (Inr [\<lparr>item_id = 3, timestamp = 0, param_value = ''q''\<rparr>]) 1)) initialPanel))) = {3, 7, 9} \<and>
   seenRecordIds (fetchData {} False (Inr [\<lparr>item_id = 9, timestamp = 2, param_value = ''r''\<rparr>]) 3
     (initialState\<lparr>seenRecordIds := {3, 7}\<rparr>)) = {3, 7, 9}"
  using seen_ids_grow_monotonically
    [of "Handler (IntervalTick 1 (Inr [\<lparr>item_id = 7, timestamp = 1, param_value = ''p''\<rparr>]) 2)"
        "step (Handler (Refresh 0 (Inr [\<lparr>item_id = 3, timestamp = 0, param_value = ''q''\<rparr>]) 1)) initialPanel"
        "[Handler (IntervalTick 1 (Inr [\<lparr>item_id = 7, timestamp = 1, param_value = ''p''\<rparr>]) 2),
          Handler (StaleFetch {} False (Inr [\<lparr>item_id = 9, timestamp = 2, param_value = ''r''\<rparr>]) 3),
          Handler (TabChange anomaly 4 (Inr []) 5 (Inl Thrown)),
          Render, ClickSend,
          Handler (Refresh 6 (Inl Thrown) 7)]"
        "{}" False "[\<lparr>item_id = 9, timestamp = 2, param_value = ''r''\<rparr>]" 3 "initialState\<lparr>seenRecordIds := {3, 7}\<rparr>"]
  by (simp add: initialPanel_def initialState_def intervalTick_def handleRefresh_def
                fetchData_def Let_def handleTabChange_def newRecords_def currentRecordIds_def
                sendButtonEnabled_def insert_commute)

section \<open>Polls that bring nothing new\<close>



section \<open>One send at a time\<close>




section \<open>The seen-id set and the tabs\<close>

text \<open>
  Claim C2 as stated fails. The component has one seen-id cell for both tabs. After the mount on the anomaly tab
  has fetched a record with id 1, the cell holds 1; the switch to the unidentified tab,
  whose forced fetch brings a record with id 2, removes 1 from the cell: the ids seen
  under the anomaly tab do not survive the reset made for the unidentified tab.
\<close>

theorem tab_reset_clears_other_tab_ids:
  "activeTab (tabChangeEffect 0
       (Inr [\<lparr>item_id = 1, timestamp = 0, param_value = ''a''\<rparr>]) 1 (Inl Thrown)
       initialState) = anomaly \<and>
   seenRecordIds (tabChangeEffect 0
       (Inr [\<lparr>item_id = 1, timestamp = 0, param_value = ''a''\<rparr>]) 1 (Inl Thrown)
       initialState) = {1} \<and>
   seenRecordIds (handleTabChange unidentified 2
       (Inr [\<lparr>item_id = 2, timestamp = 0, param_value = ''u''\<rparr>]) 3 (Inl Thrown)
       (tabChangeEffect 0
          (Inr [\<lparr>item_id = 1, timestamp = 0, param_value = ''a''\<rparr>]) 1 (Inl Thrown)
          initialState)) = {2}"
  by (simp add: handleTabChange_def tabChangeEffect_def clearSeenOnTabChange_def
                fetchData_def fetchSlackStatus_def Let_def initialState_def
                currentRecordIds_def)

text \<open>
  Claim C2, amended. The component keeps a single seen-id set, which serves whichever tab
  is active. A switch to the other tab empties it: after the switch it holds exactly the
  ids of the forced fetch of the new tab, or nothing when that fetch fails, and none of
  the ids of the previous tab as such. The notification state is not reset by the switch:
  the sending flag is unchanged, and the status is the answer of the status query that the
  switch starts, or unchanged when that query fails. The clearing itself touches only the
  seen-id set and the last-check time.
\<close>

theorem tab_change_resets_single_seen_set:
  "(newValue \<noteq> activeTab s \<longrightarrow>
      seenRecordIds (handleTabChange newValue c response now answer s) =
        (case response of Inr data \<Rightarrow> currentRecordIds data | Inl err \<Rightarrow> {}) \<and>
      slackSending (handleTabChange newValue c response now answer s) = slackSending s \<and>
      slackStatus (handleTabChange newValue c response now answer s) =
        (case answer of Inr status \<Rightarrow> Some status | Inl err \<Rightarrow> slackStatus s)) \<and>
   slackStatus (clearSeenOnTabChange c s) = slackStatus s \<and>
   slackSending (clearSeenOnTabChange c s) = slackSending s \<and>
   anomalyParams (clearSeenOnTabChange c s) = anomalyParams s \<and>
   activeTab (clearSeenOnTabChange c s) = activeTab s \<and>
   seenRecordIds (clearSeenOnTabChange c s) = {}"
  by (simp add: handleTabChange_def tabChangeEffect_def clearSeenOnTabChange_def
                fetchData_def fetchSlackStatus_def Let_def split: sum.splits)

theorem tab_change_resets_single_seen_set_witness:
  "unidentified \<noteq> activeTab (initialState\<lparr>seenRecordIds := {1}, slackSending := True\<rparr>) \<and>
   seenRecordIds (handleTabChange unidentified 2
       (Inr [\<lparr>item_id = 2, timestamp = 0, param_value = ''u''\<rparr>]) 3 (Inl Thrown)
       (initialState\<lparr>seenRecordIds := {1}, slackSending := True\<rparr>)) = {2} \<and>
   slackSending (handleTabChange unidentified 2
       (Inr [\<lparr>item_id = 2, timestamp = 0, param_value = ''u''\<rparr>]) 3 (Inl Thrown)
       (initialState\<lparr>seenRecordIds := {1}, slackSending := True\<rparr>))"
  using tab_change_resets_single_seen_set
    [of unidentified "initialState\<lparr>seenRecordIds := {1}, slackSending := True\<rparr>" 2
        "Inr [\<lparr>item_id = 2, timestamp = 0, param_value = ''u''\<rparr>]" 3 "Inl Thrown"]
  by (simp add: initialState_def currentRecordIds_def)

section \<open>The log buffer\<close>

lemma length_slice_last: "length (slice_last k xs) \<le> k"
  by (simp add: slice_last_def)

lemma slice_last_short: "length xs \<le> k \<Longrightarrow> slice_last k xs = xs"
  by (simp add: slice_last_def)

lemma slice_last_append: "slice_last k (slice_last k xs @ ys) = slice_last k (xs @ ys)"
  by (cases "length xs \<le> k") (simp_all add: slice_last_def add.commute)

lemma logs_deliver_log:
  "logs (deliver parse (LogEvent payload) s) =
     (if payload = [] then logs s
      else case parse payload of
             None \<Rightarrow> logs s
           | Some logData \<Rightarrow> slice_last 100 (logs s @ [logData]))"
  by (simp add: logListener_def logListenerBody_def split: option.splits)

lemma logs_deliver_other:
  "\<forall>payload. e \<noteq> LogEvent payload \<Longrightarrow> logs (deliver parse e s) = logs s"
  by (cases e)
     (simp_all add: pingListener_def pingListenerBody_def handleError_def split: option.splits)

lemma logs_deliverAll:
  "length (logs s) \<le> 100 \<Longrightarrow>
   logs (deliverAll parse es s) = slice_last 100 (logs s @ deliveredRecords parse es)"
proof (induction es arbitrary: s)
  case Nil
  then show ?case by (simp add: slice_last_short)
next
  case (Cons e es)
  show ?case
  proof (cases "\<exists>payload logData. e = LogEvent payload \<and> payload \<noteq> [] \<and> parse payload = Some logData")
    case True
    then obtain payload logData where e: "e = LogEvent payload" "payload \<noteq> []"
      "parse payload = Some logData" by blast
    have l: "logs (deliver parse e s) = slice_last 100 (logs s @ [logData])"
      using e by (simp add: logs_deliver_log del: deliver.simps)
    then have "length (logs (deliver parse e s)) \<le> 100"
      by (simp add: length_slice_last)
    then have "logs (deliverAll parse es (deliver parse e s)) =
        slice_last 100 (slice_last 100 (logs s @ [logData]) @ deliveredRecords parse es)"
      using Cons.IH l by simp
    then show ?thesis
      using e by (simp add: slice_last_append)
  next
    case False
    have l: "logs (deliver parse e s) = logs s"
    proof (cases e)
      case (LogEvent payload)
      then show ?thesis
        using False by (auto simp: logs_deliver_log simp del: deliver.simps split: option.splits)
    qed (simp_all add: logs_deliver_other del: deliver.simps)
    have r: "deliveredRecords parse (e # es) = deliveredRecords parse es"
    proof (cases e)
      case (LogEvent payload)
      then show ?thesis
        using False by (auto split: option.splits)
    qed simp_all
    show ?thesis
      using Cons.IH [of "deliver parse e s"] Cons.prems l r by simp
  qed
qed

text \<open>
  Claim C6. After every sequence of delivered events, the log list of the viewer holds at
  most 100 records, and they are the last 100 of the records delivered so far (all of
  them while there are fewer), in delivery order: what is dropped is an initial part of
  the delivered sequence, the oldest records.
\<close>

theorem log_buffer_bounded_at_100:
  "length (logs (deliverAll parse es initialLogViewer)) \<le> 100 \<and>
   logs (deliverAll parse es initialLogViewer) = slice_last 100 (deliveredRecords parse es) \<and>
   logs (deliverAll parse es initialLogViewer) =
     drop (length (deliveredRecords parse es) - 100) (deliveredRecords parse es) \<and>
   suffix (logs (deliverAll parse es initialLogViewer)) (deliveredRecords parse es)"
proof -
  have "logs (deliverAll parse es initialLogViewer) = slice_last 100 (deliveredRecords parse es)"
    using logs_deliverAll [of initialLogViewer parse es] by (simp add: initialLogViewer_def)
  then show ?thesis
    by (simp add: length_slice_last) (simp add: slice_last_def suffix_drop)
qed

section \<open>Malformed log events\<close>

text \<open>
  Claim C8. A log event whose payload is empty or does not parse makes the listener
  return normally with the state it was given: the log list is unchanged, and the events
  after it are handled as if it had not come.
\<close>

theorem malformed_log_event_is_skipped:
  assumes "payload = [] \<or> parse payload = None"
  shows "logListener parse payload s = Inr s \<and>
         logs (deliver parse (LogEvent payload) s) = logs s \<and>
         deliverAll parse (LogEvent payload # es) s = deliverAll parse es s"
  using assms by (auto simp: logListener_def logListenerBody_def)

theorem malformed_log_event_is_skipped_witness:
  "([] = ([] :: string) \<or> [''1'' \<mapsto> 1 :: nat] [] = None) \<and>
   (''oops'' = [] \<or> [''1'' \<mapsto> 1 :: nat] ''oops'' = None) \<and>
   logListener [''1'' \<mapsto> 1 :: nat] ''oops''
     \<lparr>logs = [5], filter_text = [], connectionError = False\<rparr> =
     Inr \<lparr>logs = [5], filter_text = [], connectionError = False\<rparr> \<and>
   logs (deliverAll [''1'' \<mapsto> 1 :: nat] [LogEvent ''oops'', LogEvent [], LogEvent ''1'']
           \<lparr>logs = [5], filter_text = [], connectionError = False\<rparr>) = [5, 1]"
  using malformed_log_event_is_skipped
    [of "''oops''" "[''1'' \<mapsto> 1 :: nat]"
        "\<lparr>logs = [5], filter_text = [], connectionError = False\<rparr>"
        "[LogEvent [], LogEvent ''1'']"]
    malformed_log_event_is_skipped
    [of "[]" "[''1'' \<mapsto> 1 :: nat]"
        "\<lparr>logs = [5], filter_text = [], connectionError = False\<rparr>"
        "[LogEvent ''1'']"]
  by (simp add: logListener_def logListenerBody_def slice_last_def)

section \<open>Keepalive events\<close>

text \<open>
  Claim C7 as stated fails. A ping whose payload is not JSON (here a bare timestamp) reaches the \<open>catch\<close> block
  before the setter of line 319: a connection error shown before the ping is still shown
  after it.
\<close>

theorem unparsable_ping_keeps_connection_error:
  "connectionError
     (deliver [''1'' \<mapsto> 1 :: nat] (PingEvent ''2024-01-01T00:00:00Z'')
        \<lparr>logs = [], filter_text = [], connectionError = True\<rparr>)"
  by (simp add: pingListener_def pingListenerBody_def)

text \<open>
  Claim C7, amended. A ping event never changes the log list, and its listener never
  throws. It clears the connection-error indicator when its payload parses as JSON; when
  the payload does not parse, the whole state, the indicator included, stays as it was.
  Only an event of type log can change the log list.
\<close>

theorem ping_event_keeps_logs:
  "logs (deliver parse (PingEvent payload) s) = logs s \<and>
   (\<exists>s'. pingListener parse payload s = Inr s') \<and>
   (parse payload \<noteq> None \<longrightarrow> \<not> connectionError (deliver parse (PingEvent payload) s)) \<and>
   (parse payload = None \<longrightarrow> deliver parse (PingEvent payload) s = s) \<and>
   (logs (deliver parse e s) \<noteq> logs s \<longrightarrow> (\<exists>p. e = LogEvent p))"
proof -
  have "logs (deliver parse e s) \<noteq> logs s \<longrightarrow> (\<exists>p. e = LogEvent p)"
    using logs_deliver_other [of e parse s] by blast
  then show ?thesis
    by (auto simp: pingListener_def pingListenerBody_def split: option.splits)
qed

theorem ping_event_keeps_logs_witness:
  "[''1'' \<mapsto> 1 :: nat] ''1'' \<noteq> None \<and>
   [''1'' \<mapsto> 1 :: nat] ''oops'' = None \<and>
   logs (deliver [''1'' \<mapsto> 1 :: nat] (LogEvent ''1'')
           \<lparr>logs = [5], filter_text = [], connectionError = True\<rparr>) \<noteq>
     logs \<lparr>logs = [5 :: nat], filter_text = [], connectionError = True\<rparr> \<and>
   \<not> connectionError (deliver [''1'' \<mapsto> 1 :: nat] (PingEvent ''1'')
           \<lparr>logs = [5], filter_text = [], connectionError = True\<rparr>) \<and>
   deliver [''1'' \<mapsto> 1 :: nat] (PingEvent ''oops'')
     \<lparr>logs = [5], filter_text = [], connectionError = True\<rparr> =
     \<lparr>logs = [5], filter_text = [], connectionError = True\<rparr>"
  using ping_event_keeps_logs
    [of "[''1'' \<mapsto> 1 :: nat]" "''1''"
        "\<lparr>logs = [5], filter_text = [], connectionError = True\<rparr>" "LogEvent ''1''"]
    ping_event_keeps_logs
    [of "[''1'' \<mapsto> 1 :: nat]" "''oops''"
        "\<lparr>logs = [5], filter_text = [], connectionError = True\<rparr>" "LogEvent ''1''"]
  by (simp add: logListener_def logListenerBody_def slice_last_def)

section \<open>The text filter\<close>

text \<open>
  Claim C10. With an empty filter every record of the log list is shown. With a filter
  that is not empty, the records shown are exactly those whose serialisation, in lower
  case, contains the filter, in lower case, as a contiguous part; two filters that
  differ only in case show the same records. The records shown are a subsequence of the
  log list, in the same order, and changing the filter leaves the log list itself as it
  is.
\<close>

theorem log_filter_is_pure_view:
  "(filter_text s = [] \<longrightarrow> visibleLogs lower stringify s = logs s) \<and>
   (filter_text s \<noteq> [] \<longrightarrow>
      visibleLogs lower stringify s =
        filter (\<lambda>log. \<exists>before after.
                  lower (stringify log) = before @ lower (filter_text s) @ after) (logs s)) \<and>
   (f \<noteq> [] \<and> g \<noteq> [] \<and> lower f = lower g \<longrightarrow>
      visibleLogs lower stringify (s\<lparr>filter_text := f\<rparr>) =
      visibleLogs lower stringify (s\<lparr>filter_text := g\<rparr>)) \<and>
   subseq (visibleLogs lower stringify s) (logs s) \<and>
   logs (handleFilterChange v s) = logs s \<and>
   visibleLogs lower stringify (handleFilterChange v s) =
     filter (matchesFilter lower stringify v) (logs s)"
  by (simp add: visibleLogs_def matchesFilter_def str_includes_def sublist_def
                handleFilterChange_def cong: filter_cong)

theorem log_filter_is_pure_view_witness:
  "filter_text \<lparr>logs = [''ERROR disk'', ''info ok''], filter_text = ''Error'',
                 connectionError = False\<rparr> \<noteq> [] \<and>
   filter_text \<lparr>logs = [''ERROR disk'', ''info ok''], filter_text = [],
                 connectionError = False\<rparr> = [] \<and>
   ''Error'' \<noteq> [] \<and> ''eRRor'' \<noteq> [] \<and> lowerAscii ''Error'' = lowerAscii ''eRRor'' \<and>
   visibleLogs lowerAscii (\<lambda>v. v)
     \<lparr>logs = [''ERROR disk'', ''info ok''], filter_text = [], connectionError = False\<rparr> =
     [''ERROR disk'', ''info ok''] \<and>
   visibleLogs lowerAscii (\<lambda>v. v)
     \<lparr>logs = [''ERROR disk'', ''info ok''], filter_text = ''Error'',
      connectionError = False\<rparr> = [''ERROR disk'']"
  using log_filter_is_pure_view
    [of "\<lparr>logs = [''ERROR disk'', ''info ok''], filter_text = ''Error'',
           connectionError = False\<rparr>" lowerAscii "\<lambda>v. v" "''Error''" "''eRRor''"]
    log_filter_is_pure_view
    [of "\<lparr>logs = [''ERROR disk'', ''info ok''], filter_text = [],
           connectionError = False\<rparr>" lowerAscii "\<lambda>v. v" "''Error''" "''eRRor''"]
  by (simp add: visibleLogs_def matchesFilter_def str_includes_def lowerAscii_def
                sublist_Cons_right)

end
